theory Spec2Isabelle
  imports Complex_Main "HOL-Library.AList"
begin

section \<open>Python values\<close>

text \<open>
  The bot keeps its whole state in two module globals, \<^verbatim>\<open>player_data\<close> and
  \<^verbatim>\<open>user_accounts\<close>, and moves them through \<^verbatim>\<open>json.dump\<close> and \<^verbatim>\<open>json.load\<close>.
  Python values are modelled as far as the JSON data model reaches: \<^verbatim>\<open>None\<close>, booleans,
  unbounded integers, floats, strings, lists and dictionaries. A dictionary is an association
  list in insertion order; its keys are strings or integers, the two kinds of key the program
  ever creates (tags and JSON object names are strings, Discord ids are integers).

  A float is given by its exact value, or is one of the three IEEE specials. Strings are
  lists of 8-bit characters; \<^verbatim>\<open>str.upper\<close> is modelled on the ASCII letters only.
\<close>

datatype pyfloat = Finite rat | PosInf | NegInf | NaN

datatype pykey = KStr string | KInt int

datatype pyval = PNone | PBool bool | PInt int | PFloat pyfloat | PStr string
  | PList "pyval list" | PDict "(pykey \<times> pyval) list"

text \<open>The exceptions the modelled code can meet.\<close>

datatype exc = ValueError | TypeError | OverflowError | ZeroDivisionError | KeyError
  | AttributeError | JSONDecodeError | OSError

text \<open>A JSON document, as it stands in a file: the names of an object are strings.\<close>

datatype json = JNull | JBool bool | JInt int | JFloat pyfloat | JStr string
  | JArr "json list" | JObj "(string \<times> json) list"

text \<open>\<^verbatim>\<open>str(n)\<close> for an integer: decimal digits, with a minus sign for a negative one.\<close>

fun str_nat :: "nat \<Rightarrow> string" where
  "str_nat n = (if n < 10 then [''0123456789'' ! n]
                else str_nat (n div 10) @ [''0123456789'' ! (n mod 10)])"

declare str_nat.simps [simp del]

definition py_str_int :: "int \<Rightarrow> string" where
  "py_str_int i = (if i < 0 then CHR ''-'' # str_nat (nat (- i)) else str_nat (nat i))"

text \<open>
  \<^verbatim>\<open>json.dump\<close> writes a dictionary as an object and turns every key into a string: a
  string key stays, an integer key becomes its decimal form.
\<close>

definition key_str :: "pykey \<Rightarrow> string" where
  "key_str k = (case k of KStr s \<Rightarrow> s | KInt i \<Rightarrow> py_str_int i)"

primrec json_dump :: "pyval \<Rightarrow> json" where
  "json_dump PNone = JNull"
| "json_dump (PBool b) = JBool b"
| "json_dump (PInt i) = JInt i"
| "json_dump (PFloat x) = JFloat x"
| "json_dump (PStr s) = JStr s"
| "json_dump (PList xs) = JArr (map json_dump xs)"
| "json_dump (PDict kvs) = JObj (map (map_prod key_str json_dump) kvs)"

text \<open>
  \<^verbatim>\<open>json.load\<close> builds a dictionary from the members of an object one after the other:
  a repeated name keeps its first place and takes the last value. Every key is a string.
\<close>

definition dict_of :: "('k \<times> 'v) list \<Rightarrow> ('k \<times> 'v) list" where
  "dict_of pairs = fold (\<lambda>kv d. AList.update (fst kv) (snd kv) d) pairs []"

primrec json_load :: "json \<Rightarrow> pyval" where
  "json_load JNull = PNone"
| "json_load (JBool b) = PBool b"
| "json_load (JInt i) = PInt i"
| "json_load (JFloat x) = PFloat x"
| "json_load (JStr s) = PStr s"
| "json_load (JArr xs) = PList (map json_load xs)"
| "json_load (JObj kvs) = PDict (dict_of (map (map_prod KStr json_load) kvs))"

text \<open>\<^verbatim>\<open>key in d\<close> and \<^verbatim>\<open>d.get(key, default)\<close>. Only a dictionary has \<^verbatim>\<open>get\<close>.\<close>

definition py_in :: "pykey \<Rightarrow> pyval \<Rightarrow> bool" where
  "py_in k d = (case d of PDict kvs \<Rightarrow> map_of kvs k \<noteq> None | _ \<Rightarrow> False)"

definition py_get :: "pyval \<Rightarrow> string \<Rightarrow> pyval \<Rightarrow> exc + pyval" where
  "py_get d k dflt =
     (case d of
        PDict kvs \<Rightarrow> Inr (case map_of kvs (KStr k) of Some v \<Rightarrow> v | None \<Rightarrow> dflt)
      | _ \<Rightarrow> Inl AttributeError)"

section \<open>Scoring engine: \<^verbatim>\<open>PointManager\<close>\<close>

definition POINT_SYSTEM :: "(int \<times> int) list" where
  "POINT_SYSTEM = [(1, 20), (2, 14), (3, 12), (4, 10), (5, 8), (6, 6), (7, 4), (8, 2)]"

definition calculate_points :: "int \<Rightarrow> int" where
  "calculate_points rank = (case map_of POINT_SYSTEM rank of Some p \<Rightarrow> p | None \<Rightarrow> 0)"

section \<open>Persistence: \<^verbatim>\<open>Database\<close>\<close>

text \<open>
  The two files under \<^verbatim>\<open>data/\<close>. A file that exists holds either a JSON document or text
  that \<^verbatim>\<open>json.load\<close> rejects (\<open>Garbage\<close>: a truncated or hand-edited file). The flag
  \<open>faulty\<close> stands for a storage failure: when it is set, every file operation raises
  \<^verbatim>\<open>OSError\<close>.
\<close>

datatype content = Garbage | Doc json

record store =
  data_file :: "content option"
  backup_file :: "content option"
  faulty :: bool

text \<open>The module globals, as Python values.\<close>

record globals =
  player_data :: pyval
  user_accounts :: pyval

definition empty_globals :: globals where
  "empty_globals = \<lparr>player_data = PDict [], user_accounts = PDict []\<rparr>"

text \<open>
  \<^verbatim>\<open>save_player_data\<close>: inside one \<^verbatim>\<open>try\<close>, copy the data file over the backup when the
  data file exists, then dump \<^verbatim>\<open>{'player_data': ..., 'user_accounts': ...}\<close> into the data
  file. An exception is logged and nothing is written.
\<close>

definition save_player_data :: "globals \<Rightarrow> store \<Rightarrow> store" where
  "save_player_data g s =
     (let data = PDict [(KStr ''player_data'', player_data g),
                        (KStr ''user_accounts'', user_accounts g)]
      in if faulty s then s
         else (let s1 = (case data_file s of
                           Some c \<Rightarrow> s\<lparr>backup_file := Some c\<rparr>
                         | None \<Rightarrow> s)
               in s1\<lparr>data_file := Some (Doc (json_dump data))\<rparr>))"

text \<open>
  The body of a \<^verbatim>\<open>with open(path) as f\<close> block of \<^verbatim>\<open>load_player_data\<close>:
  \<^verbatim>\<open>json.load\<close>, then \<^verbatim>\<open>data.get('player_data', {})\<close> and \<^verbatim>\<open>data.get('user_accounts', {})\<close>.
\<close>

definition read_json :: "content option \<Rightarrow> exc + pyval" where
  "read_json f =
     (case f of
        None \<Rightarrow> Inl OSError
      | Some Garbage \<Rightarrow> Inl JSONDecodeError
      | Some (Doc d) \<Rightarrow> Inr (json_load d))"

definition load_file :: "content option \<Rightarrow> exc + globals" where
  "load_file f =
     (case read_json f of
        Inl e \<Rightarrow> Inl e
      | Inr data \<Rightarrow>
          (case py_get data ''player_data'' (PDict []) of
             Inl e \<Rightarrow> Inl e
           | Inr pd \<Rightarrow>
               (case py_get data ''user_accounts'' (PDict []) of
                  Inl e \<Rightarrow> Inl e
                | Inr ua \<Rightarrow> Inr \<lparr>player_data = pd, user_accounts = ua\<rparr>)))"

text \<open>
  The \<^verbatim>\<open>try\<close> block of \<^verbatim>\<open>load_player_data\<close>, with an exception as a value, and the
  function itself: its \<^verbatim>\<open>except Exception\<close> handler resets both globals to \<^verbatim>\<open>{}\<close>.
\<close>

definition load_try :: "store \<Rightarrow> exc + globals" where
  "load_try s =
     (if faulty s then Inl OSError
      else if data_file s \<noteq> None then load_file (data_file s)
      else if backup_file s \<noteq> None then load_file (backup_file s)
      else Inr empty_globals)"

definition load_player_data :: "store \<Rightarrow> globals" where
  "load_player_data s = (case load_try s of Inr g \<Rightarrow> g | Inl e \<Rightarrow> empty_globals)"

section \<open>The identity registry\<close>

text \<open>
  In memory the program keeps \<^verbatim>\<open>player_data\<close> in the format
  \<^verbatim>\<open>{player_tag: {"discord_id": id, "points": int, "name": str}}\<close> and
  \<^verbatim>\<open>user_accounts\<close> in the format \<^verbatim>\<open>{discord_id: [player_tag1, ...]}\<close>. The operations
  on the registry are modelled on these formats; \<open>registry_val\<close> and \<open>accounts_val\<close> give
  the Python values they stand for.
\<close>

record player =
  discord_id :: int
  points :: int
  name :: string

type_synonym registry = "(string \<times> player) list"

type_synonym accounts = "(pykey \<times> string list) list"

definition player_val :: "player \<Rightarrow> pyval" where
  "player_val p = PDict [(KStr ''discord_id'', PInt (discord_id p)),
                         (KStr ''points'', PInt (points p)),
                         (KStr ''name'', PStr (name p))]"

definition registry_val :: "registry \<Rightarrow> pyval" where
  "registry_val pd = PDict (map (map_prod KStr player_val) pd)"

definition accounts_val :: "accounts \<Rightarrow> pyval" where
  "accounts_val ua = PDict (map (map_prod id (\<lambda>tags. PList (map PStr tags))) ua)"

definition registry_globals :: "registry \<Rightarrow> accounts \<Rightarrow> globals" where
  "registry_globals pd ua = \<lparr>player_data = registry_val pd, user_accounts = accounts_val ua\<rparr>"

text \<open>
  \<^verbatim>\<open>update_user_accounts\<close>: start from \<^verbatim>\<open>{}\<close> and walk \<^verbatim>\<open>player_data.items()\<close>; an owner
  not yet in the index gets an empty list, and the tag is appended unless it is there.
\<close>

fun update_user_accounts_loop :: "registry \<Rightarrow> accounts \<Rightarrow> accounts" where
  "update_user_accounts_loop [] ua = ua"
| "update_user_accounts_loop ((player_tag, data) # rest) ua =
     (let did = KInt (discord_id data);
          ua1 = (if map_of ua did = None then AList.update did [] ua else ua);
          ua2 = AList.map_entry did (\<lambda>tags. if player_tag \<in> set tags then tags
                                              else tags @ [player_tag]) ua1
      in update_user_accounts_loop rest ua2)"

definition update_user_accounts :: "registry \<Rightarrow> accounts" where
  "update_user_accounts pd = update_user_accounts_loop pd []"

section \<open>Tags and the \<^verbatim>\<open>link\<close> command\<close>

definition upper_char :: "char \<Rightarrow> char" where
  "upper_char c =
     (case map_of (zip ''abcdefghijklmnopqrstuvwxyz'' ''ABCDEFGHIJKLMNOPQRSTUVWXYZ'') c of
        Some u \<Rightarrow> u
      | None \<Rightarrow> c)"

definition upper :: "string \<Rightarrow> string" where
  "upper s = map upper_char s"

text \<open>\<^verbatim>\<open>s.replace('#', '').upper()\<close>\<close>

definition normalize_tag :: "string \<Rightarrow> string" where
  "normalize_tag s = upper (filter (\<lambda>c. c \<noteq> CHR ''#'') s)"

text \<open>
  \<^verbatim>\<open>validate_player_tag\<close> is \<^verbatim>\<open>re.match(r'^[0289PYLQGRJCUV]{3,}$', tag.upper())\<close>. The
  class is matched greedily from the start of the string, at least three times; \<^verbatim>\<open>$\<close>
  then matches at the end of the string and also just before a newline that ends it.
\<close>

definition in_alphabet :: "char \<Rightarrow> bool" where
  "in_alphabet c = (c \<in> set ''0289PYLQGRJCUV'')"

definition validate_player_tag :: "string \<Rightarrow> bool" where
  "validate_player_tag t =
     (let u = upper t; rest = dropWhile in_alphabet u
      in 3 \<le> length (takeWhile in_alphabet u) \<and> (rest = [] \<or> rest = [CHR 0x0A]))"

datatype link_result = InvalidTag | AlreadyLinked | Linked

text \<open>
  \<^verbatim>\<open>link_slash\<close>, with the Discord member given by its id and display name. It returns
  the reply together with the two globals and the store.
\<close>

definition link_slash ::
  "string \<Rightarrow> int \<Rightarrow> string \<Rightarrow> registry \<Rightarrow> accounts \<Rightarrow> store
     \<Rightarrow> link_result \<times> registry \<times> accounts \<times> store" where
  "link_slash player_tag0 uid display_name pd ua s =
     (let player_tag = normalize_tag player_tag0
      in if player_tag = [] \<or> \<not> validate_player_tag player_tag then (InvalidTag, pd, ua, s)
         else if map_of pd player_tag \<noteq> None then (AlreadyLinked, pd, ua, s)
         else
           (let pd' = AList.update player_tag
                        \<lparr>discord_id = uid, points = 0, name = display_name\<rparr> pd;
                ua1 = (if map_of ua (KInt uid) = None then AList.update (KInt uid) [] ua
                       else ua);
                ua' = AList.map_entry (KInt uid) (\<lambda>tags. tags @ [player_tag]) ua1
            in (Linked, pd', ua', save_player_data (registry_globals pd' ua') s)))"

section \<open>Rank matcher\<close>

text \<open>
  \<^verbatim>\<open>find_linked_players_in_top_8\<close> walks \<^verbatim>\<open>players[:8]\<close>. A record is whatever the
  extractor parsed: \<^verbatim>\<open>player.get\<close> raises \<^verbatim>\<open>AttributeError\<close> on a value that is not a
  dictionary, and so does \<^verbatim>\<open>.replace\<close> on a tag that is not a string. The entry built
  for a linked player is \<^verbatim>\<open>{'tag': ..., 'name': ..., 'rank': ...}\<close>.
\<close>

record linked_player =
  lp_tag :: string
  lp_name :: pyval
  lp_rank :: pyval



section \<open>Applying the points\<close>

text \<open>
  \<^verbatim>\<open>int(rank)\<close>. An integer is itself, a boolean is 0 or 1, a finite float is truncated
  towards zero; \<^verbatim>\<open>int(float('nan'))\<close> raises \<^verbatim>\<open>ValueError\<close>, \<^verbatim>\<open>int(float('inf'))\<close>
  raises \<^verbatim>\<open>OverflowError\<close>; \<^verbatim>\<open>None\<close>, a list and a dictionary raise \<^verbatim>\<open>TypeError\<close>.
  For a string the result is that of Python's integer-literal parser, which the model takes
  as the parameter \<open>int_of_str\<close> (\<open>None\<close> for \<^verbatim>\<open>ValueError\<close>).
\<close>

definition py_int :: "(string \<Rightarrow> int option) \<Rightarrow> pyval \<Rightarrow> exc + int" where
  "py_int int_of_str v =
     (case v of
        PInt i \<Rightarrow> Inr i
      | PBool b \<Rightarrow> Inr (if b then 1 else 0)
      | PFloat x \<Rightarrow>
          (case x of
             Finite q \<Rightarrow> Inr (if 0 \<le> q then \<lfloor>q\<rfloor> else \<lceil>q\<rceil>)
           | NaN \<Rightarrow> Inl ValueError
           | _ \<Rightarrow> Inl OverflowError)
      | PStr s \<Rightarrow> (case int_of_str s of Some i \<Rightarrow> Inr i | None \<Rightarrow> Inl ValueError)
      | _ \<Rightarrow> Inl TypeError)"

record update =
  u_tag :: string
  u_name :: pyval
  u_rank :: int
  u_points_added :: int
  u_total_points :: int

text \<open>
  The loop of \<^verbatim>\<open>update_points_for_leaderboard\<close>, carrying \<^verbatim>\<open>player_data\<close> and the list
  \<^verbatim>\<open>updates\<close>. Its \<^verbatim>\<open>except (ValueError, TypeError)\<close> continues with the next record; any
  other exception leaves the loop, with the registry as it has been changed so far.
\<close>

fun update_loop ::
  "(string \<Rightarrow> int option) \<Rightarrow> linked_player list \<Rightarrow> registry \<Rightarrow> update list
     \<Rightarrow> exc option \<times> registry \<times> update list" where
  "update_loop int_of_str [] pd updates = (None, pd, updates)"
| "update_loop int_of_str (player_info # rest) pd updates =
     (case py_int int_of_str (lp_rank player_info) of
        Inl e \<Rightarrow>
          if e = ValueError \<or> e = TypeError then update_loop int_of_str rest pd updates
          else (Some e, pd, updates)
      | Inr rank \<Rightarrow>
          (let points_to_add = calculate_points rank
           in if points_to_add > 0 then
                (case map_of pd (lp_tag player_info) of
                   None \<Rightarrow> (Some KeyError, pd, updates)
                 | Some p \<Rightarrow>
                     (let new_points = points p + points_to_add
                      in update_loop int_of_str rest
                           (AList.update (lp_tag player_info) (p\<lparr>points := new_points\<rparr>) pd)
                           (updates @ [\<lparr>u_tag = lp_tag player_info,
                                        u_name = lp_name player_info, u_rank = rank,
                                        u_points_added = points_to_add,
                                        u_total_points = new_points\<rparr>])))
              else update_loop int_of_str rest pd updates))"

text \<open>
  \<^verbatim>\<open>update_points_for_leaderboard\<close>, given the list that
  \<^verbatim>\<open>get_linked_players_placements\<close> returned. The result is the returned list or the
  exception that escaped, with the registry and the store afterwards.
\<close>

definition update_points_for_leaderboard ::
  "(string \<Rightarrow> int option) \<Rightarrow> linked_player list \<Rightarrow> registry \<Rightarrow> accounts \<Rightarrow> store
     \<Rightarrow> (exc + update list) \<times> registry \<times> store" where
  "update_points_for_leaderboard int_of_str linked_players pd ua s =
     (if linked_players = [] then (Inr [], pd, s)
      else
        (case update_loop int_of_str linked_players pd [] of
           (Some e, pd', updates) \<Rightarrow> (Inl e, pd', s)
         | (None, pd', updates) \<Rightarrow>
             (Inr updates, pd',
              if updates \<noteq> [] then save_player_data (registry_globals pd' ua) s else s)))"

section \<open>Trailing-comma cleanup of the extractor\<close>

text \<open>
  \<^verbatim>\<open>re.sub(r',\s*]', ']', s)\<close> and \<^verbatim>\<open>re.sub(r',\s*}', '}', s)\<close>: scanning from the left, a
  comma followed by any run of whitespace and the closing character is replaced by the
  closing character, and the scan goes on behind it. \<open>is_space\<close> is \<^verbatim>\<open>\s\<close> on the
  7-bit characters.
\<close>

definition is_space :: "char \<Rightarrow> bool" where
  "is_space c = (c \<in> set [CHR 0x20, CHR 0x09, CHR 0x0A, CHR 0x0D, CHR 0x0B, CHR 0x0C,
                              CHR 0x1C, CHR 0x1D, CHR 0x1E, CHR 0x1F])"

definition closes_next :: "char \<Rightarrow> string \<Rightarrow> bool" where
  "closes_next c xs = (case dropWhile is_space xs of [] \<Rightarrow> False | y # ys \<Rightarrow> y = c)"

function strip_trailing :: "char \<Rightarrow> string \<Rightarrow> string" where
  "strip_trailing c [] = []"
| "strip_trailing c (x # xs) =
     (if x = CHR '','' \<and> closes_next c xs
      then c # strip_trailing c (tl (dropWhile is_space xs))
      else x # strip_trailing c xs)"
  by pat_completeness auto
termination
proof (relation "measure (\<lambda>(c, s). length s)")
  show "wf (measure (\<lambda>(c, s). length s))"
    by simp
next
  fix c x :: char and xs :: string
  have "length (dropWhile is_space xs) \<le> length xs"
    by (rule length_dropWhile_le)
  then show "((c, tl (dropWhile is_space xs)), (c, x # xs)) \<in> measure (\<lambda>(c, s). length s)"
    by simp
next
  fix c x :: char and xs :: string
  show "((c, xs), (c, x # xs)) \<in> measure (\<lambda>(c, s). length s)"
    by simp
qed

definition cleanup :: "string \<Rightarrow> string" where
  "cleanup json_str = strip_trailing (CHR ''}'') (strip_trailing (CHR '']'') json_str)"

section \<open>Float arithmetic and \<^verbatim>\<open>calculate_order_percentages\<close>\<close>

text \<open>
  A Python float is an IEEE binary64 number. Each operation returns the binary64 number
  nearest to the exact result, a tie going to the one whose last bit is even: 53
  significant bits for a normal number, multiples of \<open>2 ^ (-1074)\<close> below the normal
  range, an infinity from \<open>2 ^ 1024\<close> on. The sign of a zero is not modelled.

  \<open>floor_log2 n\<close> is the position of the highest bit of a positive integer, and
  \<open>binary_exponent a\<close> the \<open>e\<close> with \<open>2 ^ e \<le> a < 2 ^ (e + 1)\<close> for a positive rational.
\<close>

function floor_log2 :: "int \<Rightarrow> int" where
  "floor_log2 n = (if n < 2 then 0 else 1 + floor_log2 (n div 2))"
  by pat_completeness auto
termination
  by (relation "measure nat") auto

declare floor_log2.simps [simp del]

definition pow2 :: "int \<Rightarrow> rat" where
  "pow2 k = (if 0 \<le> k then 2 ^ nat k else 1 / 2 ^ nat (- k))"

definition binary_exponent :: "rat \<Rightarrow> int" where
  "binary_exponent a =
     (let n = fst (quotient_of a); d = snd (quotient_of a);
          k = floor_log2 n - floor_log2 d
      in if pow2 k \<le> a then k else k - 1)"

definition round_half_even :: "rat \<Rightarrow> int" where
  "round_half_even x =
     (let f = \<lfloor>x\<rfloor>; r = x - of_int f
      in if r < 1 / 2 then f else if 1 / 2 < r then f + 1 else if even f then f else f + 1)"

definition to_double :: "rat \<Rightarrow> pyfloat" where
  "to_double x =
     (if x = 0 then Finite 0
      else (let a = \<bar>x\<bar>;
                q = pow2 (max (binary_exponent a - 52) (- 1074));
                r = of_int (round_half_even (a / q)) * q
            in if 1024 \<le> binary_exponent r then (if 0 < x then PosInf else NegInf)
               else Finite (if 0 < x then r else - r)))"







section \<open>Notions used to state the properties\<close>

text \<open>
  What one file holds, read on its own: the two globals, when the file is a JSON document
  whose top level is an object; nothing otherwise.
\<close>

definition stored :: "content option \<Rightarrow> globals option" where
  "stored f =
     (case f of
        Some (Doc d) \<Rightarrow>
          (case json_load d of
             PDict kvs \<Rightarrow>
               Some \<lparr>player_data = (case map_of kvs (KStr ''player_data'') of
                                      Some v \<Rightarrow> v | None \<Rightarrow> PDict []),
                     user_accounts = (case map_of kvs (KStr ''user_accounts'') of
                                        Some v \<Rightarrow> v | None \<Rightarrow> PDict [])\<rparr>
           | _ \<Rightarrow> None)
      | _ \<Rightarrow> None)"

text \<open>
  The loading rule in the words of the specification: the primary store first, the backup
  whenever the primary cannot be used, the empty registry when neither can.
\<close>

definition load_spec :: "store \<Rightarrow> globals" where
  "load_spec s =
     (if faulty s then empty_globals
      else (case stored (data_file s) of
              Some g \<Rightarrow> g
            | None \<Rightarrow>
                (case stored (backup_file s) of Some g \<Rightarrow> g | None \<Rightarrow> empty_globals)))"

text \<open>The tags an index lists under a key.\<close>

definition tagset :: "accounts \<Rightarrow> pykey \<Rightarrow> string set" where
  "tagset ua k = (case map_of ua k of None \<Rightarrow> {} | Some tags \<Rightarrow> set tags)"







text \<open>
  A string has a trailing comma when somewhere in it a comma is followed by whitespace
  only up to a closing \<^verbatim>\<open>]\<close> or \<^verbatim>\<open>}\<close>.
\<close>

fun has_trailing_comma :: "string \<Rightarrow> bool" where
  "has_trailing_comma [] = False"
| "has_trailing_comma (x # xs) =
     ((x = CHR '','' \<and> (closes_next (CHR '']'') xs \<or> closes_next (CHR ''}'') xs))
      \<or> has_trailing_comma xs)"

text \<open>
  The points a linked player's rank is worth, 0 when the rank cannot be coerced, and the
  points a registry holds for a tag.
\<close>

definition rank_delta :: "(string \<Rightarrow> int option) \<Rightarrow> linked_player \<Rightarrow> int" where
  "rank_delta int_of_str info =
     (case py_int int_of_str (lp_rank info) of Inr r \<Rightarrow> calculate_points r | Inl e \<Rightarrow> 0)"

definition points_of :: "registry \<Rightarrow> string \<Rightarrow> int" where
  "points_of pd t = (case map_of pd t of Some p \<Rightarrow> points p | None \<Rightarrow> 0)"



text \<open>States used as examples.\<close>

definition example_registry :: registry where
  "example_registry = [(''PYL'', \<lparr>discord_id = 7, points = 20, name = ''Ann''\<rparr>),
                       (''QQQ'', \<lparr>discord_id = 7, points = 0, name = ''Ann''\<rparr>),
                       (''0289'', \<lparr>discord_id = 12, points = 4, name = ''Bob''\<rparr>)]"

definition example_accounts :: accounts where
  "example_accounts = [(KInt 7, [''PYL'', ''QQQ'']), (KInt 12, [''0289''])]"

definition empty_store :: store where
  "empty_store = \<lparr>data_file = None, backup_file = None, faulty = False\<rparr>"

definition example_doc :: json where
  "example_doc =
     JObj [(''player_data'',
            JObj [(''PYL'', JObj [(''discord_id'', JInt 7), (''points'', JInt 20),
                                  (''name'', JStr ''Ann'')])]),
           (''user_accounts'', JObj [(''7'', JArr [JStr ''PYL''])])]"

definition example_loaded :: globals where
  "example_loaded =
     \<lparr>player_data = PDict [(KStr ''PYL'', PDict [(KStr ''discord_id'', PInt 7),
                              (KStr ''points'', PInt 20), (KStr ''name'', PStr ''Ann'')])],
      user_accounts = PDict [(KStr ''7'', PList [PStr ''PYL''])]\<rparr>"

definition example_saved_doc :: json where
  "example_saved_doc =
     JObj [(''player_data'',
            JObj [(''PYL'', JObj [(''discord_id'', JInt 7), (''points'', JInt 20),
                                  (''name'', JStr ''Ann'')]),
                  (''QQQ'', JObj [(''discord_id'', JInt 7), (''points'', JInt 0),
                                  (''name'', JStr ''Ann'')]),
                  (''0289'', JObj [(''discord_id'', JInt 12), (''points'', JInt 4),
                                   (''name'', JStr ''Bob'')])]),
           (''user_accounts'',
            JObj [(''7'', JArr [JStr ''PYL'', JStr ''QQQ'']), (''12'', JArr [JStr ''0289''])])]"

definition stale_index_doc :: json where
  "stale_index_doc =
     JObj [(''player_data'',
            JObj [(''PYL'', JObj [(''discord_id'', JInt 7), (''points'', JInt 20),
                                  (''name'', JStr ''Ann'')])]),
           (''user_accounts'', JObj [(''99'', JArr [JStr ''QQQ''])])]"


definition example_batch :: "linked_player list" where
  "example_batch =
     [\<lparr>lp_tag = ''PYL'', lp_name = PStr ''Ann'', lp_rank = PInt 1\<rparr>,
      \<lparr>lp_tag = ''QQQ'', lp_name = PStr ''Ann'', lp_rank = PNone\<rparr>,
      \<lparr>lp_tag = ''0289'', lp_name = PStr ''Bob'', lp_rank = PFloat (Finite (5 / 2))\<rparr>,
      \<lparr>lp_tag = ''QQQ'', lp_name = PStr ''Ann'', lp_rank = PInt 9\<rparr>,
      \<lparr>lp_tag = ''PYL'', lp_name = PStr ''Ann'', lp_rank = PFloat NaN\<rparr>]"

section \<open>Dictionaries and JSON\<close>

lemma update_fresh: "k \<notin> fst ` set al \<Longrightarrow> AList.update k v al = al @ [(k, v)]"
  by (induction al) auto

lemma fold_update_distinct:
  "distinct (map fst (acc @ ps)) \<Longrightarrow>
   fold (\<lambda>kv d. AList.update (fst kv) (snd kv) d) ps acc = acc @ ps"
proof (induction ps arbitrary: acc)
  case Nil
  then show ?case by simp
next
  case (Cons p ps)
  have fresh: "fst p \<notin> fst ` set acc"
    using Cons.prems by auto
  have "distinct (map fst ((acc @ [p]) @ ps))"
    using Cons.prems by simp
  then have "fold (\<lambda>kv d. AList.update (fst kv) (snd kv) d) ps (acc @ [p]) = (acc @ [p]) @ ps"
    by (rule Cons.IH)
  then show ?case
    using fresh by (simp add: update_fresh)
qed

lemma dict_of_distinct: "distinct (map fst ps) \<Longrightarrow> dict_of ps = ps"
  using fold_update_distinct [of "[]" ps] by (simp add: dict_of_def)

lemma map_of_fold_update:
  "map_of (fold (\<lambda>kv d. AList.update (fst kv) (snd kv) d) ps acc) = map_of acc ++ map_of (rev ps)"
proof (induction ps arbitrary: acc)
  case Nil
  then show ?case by simp
next
  case (Cons p ps)
  obtain k v where p: "p = (k, v)"
    by (cases p)
  have "map_of (fold (\<lambda>kv d. AList.update (fst kv) (snd kv) d) (p # ps) acc) =
        map_of (AList.update k v acc) ++ map_of (rev ps)"
    by (simp add: p Cons.IH)
  also have "map_of (AList.update k v acc) = map_of acc ++ [k \<mapsto> v]"
    by (simp add: update_conv')
  also have "(map_of acc ++ [k \<mapsto> v]) ++ map_of (rev ps) =
             map_of acc ++ ([k \<mapsto> v] ++ map_of (rev ps))"
    by (rule map_add_assoc [symmetric])
  also have "[k \<mapsto> v] ++ map_of (rev ps) = map_of (rev (p # ps))"
    by (simp add: p)
  finally show ?case .
qed

lemma map_of_dict_of: "map_of (dict_of ps) = map_of (rev ps)"
  by (simp add: dict_of_def map_of_fold_update)

lemma keys_dict_of: "fst ` set (dict_of ps) = fst ` set ps"
proof -
  have "dom (map_of (dict_of ps)) = dom (map_of (rev ps))"
    by (simp add: map_of_dict_of)
  then show ?thesis
    by (simp add: dom_map_of_conv_image_fst)
qed

lemma map_of_map_KStr:
  "map_of (map (map_prod KStr f) xs) (KStr k) = map_option f (map_of xs k)"
  by (induction xs) auto

lemma player_val_round_trip: "json_load (json_dump (player_val p)) = player_val p"
  by (simp add: player_val_def key_str_def dict_of_def)

lemma registry_val_round_trip:
  assumes "distinct (map fst pd)"
  shows "json_load (json_dump (registry_val pd)) = registry_val pd"
proof -
  have "distinct (map fst (map (map_prod KStr player_val) pd))"
    using assms by (simp add: distinct_map comp_def inj_on_def)
  then have "dict_of (map (map_prod KStr player_val) pd) = map (map_prod KStr player_val) pd"
    by (rule dict_of_distinct)
  then show ?thesis
    by (simp add: registry_val_def key_str_def comp_def map_prod_def case_prod_unfold
        player_val_round_trip)
qed

lemma accounts_val_round_trip:
  "json_load (json_dump (accounts_val ua)) =
   PDict (dict_of (map (map_prod (\<lambda>k. KStr (key_str k)) (\<lambda>tags. PList (map PStr tags))) ua))"
  by (simp add: accounts_val_def comp_def map_prod_def case_prod_unfold)

section \<open>Saving and loading\<close>

lemma load_after_save:
  "\<not> faulty s \<Longrightarrow>
   load_player_data (save_player_data g s) =
     \<lparr>player_data = json_load (json_dump (player_data g)),
      user_accounts = json_load (json_dump (user_accounts g))\<rparr>"
  by (cases "data_file s")
     (simp_all add: save_player_data_def load_player_data_def load_try_def load_file_def
        read_json_def py_get_def key_str_def dict_of_def)

lemma load_file_stored:
  "load_file f = (case stored f of Some g \<Rightarrow> Inr g | None \<Rightarrow> 
      (case f of None \<Rightarrow> Inl OSError | Some Garbage \<Rightarrow> Inl JSONDecodeError | Some (Doc d) \<Rightarrow> Inl AttributeError))"
  by (auto simp: load_file_def stored_def read_json_def py_get_def split: option.splits content.splits pyval.splits)

lemma load_file_cases:
  "(stored f = Some g \<longrightarrow> load_file f = Inr g) \<and> (stored f = None \<longrightarrow> (\<exists>e. load_file f = Inl e))"
  by (auto simp: load_file_stored split: option.splits content.splits)

lemma stored_example_doc: "stored (Some (Doc example_doc)) = Some example_loaded"
  by (simp add: stored_def example_doc_def example_loaded_def dict_of_def)

section \<open>Rebuilding the index\<close>

lemma tagset_loop:
  "tagset (update_user_accounts_loop pd ua) k =
   tagset ua k \<union> {t. \<exists>p. (t, p) \<in> set pd \<and> KInt (discord_id p) = k}"
proof (induction pd arbitrary: ua)
  case Nil
  then show ?case by simp
next
  case (Cons tp pd)
  obtain t p where tp: "tp = (t, p)"
    by (cases tp)
  define ua1 where "ua1 = (if map_of ua (KInt (discord_id p)) = None
                           then AList.update (KInt (discord_id p)) [] ua else ua)"
  define ua2 where "ua2 = AList.map_entry (KInt (discord_id p))
                       (\<lambda>tags. if t \<in> set tags then tags else tags @ [t]) ua1"
  have step: "update_user_accounts_loop (tp # pd) ua = update_user_accounts_loop pd ua2"
    by (simp add: tp ua1_def ua2_def Let_def)
  have t1: "tagset ua1 k = tagset ua k" and d1: "map_of ua1 (KInt (discord_id p)) \<noteq> None"
    by (auto simp: ua1_def tagset_def update_conv')
  have t2: "tagset ua2 k = tagset ua1 k \<union> (if KInt (discord_id p) = k then {t} else {})"
    using d1 by (auto simp: ua2_def tagset_def map_of_map_entry split: option.splits)
  show ?case
    unfolding step Cons.IH t2 t1 by (auto simp: tp)
qed

lemma tagset_update_user_accounts:
  "tagset (update_user_accounts pd) k = {t. \<exists>p. (t, p) \<in> set pd \<and> KInt (discord_id p) = k}"
  by (simp add: update_user_accounts_def tagset_loop) (simp add: tagset_def)

section \<open>Rounding to a float\<close>

lemma round_half_even_bounds:
  "x - 1 / 2 \<le> of_int (round_half_even x) \<and> of_int (round_half_even x) \<le> x + 1 / 2"
proof -
  have "of_int \<lfloor>x\<rfloor> \<le> x" and "x < of_int \<lfloor>x\<rfloor> + 1"
    by linarith+
  then show ?thesis
    unfolding round_half_even_def Let_def by (simp, linarith)
qed

lemma round_half_even_tie:
  assumes "\<bar>of_int (round_half_even x) - x\<bar> = 1 / 2"
  shows "even (round_half_even x)"
proof -
  define r where "r = x - of_int \<lfloor>x\<rfloor>"
  have r: "0 \<le> r" "r < 1"
    unfolding r_def by linarith+
  have x: "x = of_int \<lfloor>x\<rfloor> + r"
    by (simp add: r_def)
  show ?thesis
  proof (cases "r < 1 / 2")
    case True
    then have "round_half_even x = \<lfloor>x\<rfloor>"
      by (simp add: round_half_even_def r_def Let_def)
    then have "\<bar>of_int (round_half_even x) - x\<bar> = r"
      using r by (simp add: r_def)
    then show ?thesis using assms True by simp
  next
    case False
    show ?thesis
    proof (cases "1 / 2 < r")
      case True
      then have "round_half_even x = \<lfloor>x\<rfloor> + 1"
        using False by (simp add: round_half_even_def r_def Let_def)
      then have "\<bar>of_int (round_half_even x) - x\<bar> = 1 - r"
        using r by (simp add: r_def)
      then show ?thesis using assms True by simp
    next
      case half: False
      then have "round_half_even x = (if even \<lfloor>x\<rfloor> then \<lfloor>x\<rfloor> else \<lfloor>x\<rfloor> + 1)"
        using False by (simp add: round_half_even_def r_def Let_def)
      then show ?thesis by simp
    qed
  qed
qed

lemma round_half_even_nearest:
  "\<bar>of_int (round_half_even x) - x\<bar> \<le> 1 / 2 \<and>
   (\<bar>of_int (round_half_even x) - x\<bar> = 1 / 2 \<longrightarrow> even (round_half_even x))"
proof -
  have "\<bar>of_int (round_half_even x) - x\<bar> \<le> 1 / 2"
    using round_half_even_bounds [of x] by linarith
  then show ?thesis
    using round_half_even_tie [of x] by blast
qed

lemma pow2_powi: "pow2 k = 2 powi k"
  by (simp add: pow2_def power_int_def inverse_eq_divide power_one_over)

lemma floor_log2_nonneg: "0 \<le> floor_log2 n"
  by (induction n rule: floor_log2.induct) (simp add: floor_log2.simps)

lemma floor_log2_bounds:
  "1 \<le> n \<Longrightarrow> 2 ^ nat (floor_log2 n) \<le> n \<and> n < 2 * 2 ^ nat (floor_log2 n)"
proof (induction n rule: floor_log2.induct)
  case (1 n)
  show ?case
  proof (cases "n < 2")
    case True
    then have "n = 1" using "1.prems" by simp
    then show ?thesis by (simp add: floor_log2.simps)
  next
    case False
    then have ih: "2 ^ nat (floor_log2 (n div 2)) \<le> n div 2 \<and>
                   n div 2 < 2 * 2 ^ nat (floor_log2 (n div 2))"
      using "1.IH" by simp
    have eq: "nat (floor_log2 n) = Suc (nat (floor_log2 (n div 2)))"
      using False floor_log2_nonneg [of "n div 2"] by (simp add: floor_log2.simps [of n] nat_add_distrib)
    show ?thesis
      unfolding eq using ih by (simp, linarith)
  qed
qed







text \<open>
  The model of a float operation does what is said of it: \<open>binary_exponent\<close> brackets a
  positive rational between two powers of two, and a finite result of \<open>to_double\<close> lies
  within half a unit in the last place of its argument.
\<close>

lemma binary_exponent_less:
  assumes "0 < a"
  shows "a < pow2 (binary_exponent a + 1)"
proof -
  obtain n d where q: "quotient_of a = (n, d)"
    by (cases "quotient_of a")
  have d: "0 < d" and a: "a = of_int n / of_int d"
    using quotient_of_denom_pos [OF q] quotient_of_div [OF q] by simp_all
  have n: "0 < n"
    using assms d a by (simp add: zero_less_divide_iff)
  define k where "k = floor_log2 n - floor_log2 d"
  have be: "binary_exponent a = (if pow2 k \<le> a then k else k - 1)"
    by (simp add: binary_exponent_def q k_def Let_def)
  have "a < pow2 (k + 1)"
  proof -
    have nb: "of_int n < (2::rat) powi (floor_log2 n + 1)"
    proof -
      have "n < 2 * (2::int) ^ nat (floor_log2 n)"
        using floor_log2_bounds [of n] n by simp
      then have "(of_int n :: rat) < of_int (2 * (2::int) ^ nat (floor_log2 n))"
        by (simp only: of_int_less_iff)
      then show ?thesis
        using floor_log2_nonneg [of n] by (simp add: power_int_def nat_add_distrib)
    qed
    have db: "(2::rat) powi floor_log2 d \<le> of_int d"
    proof -
      have "(2::int) ^ nat (floor_log2 d) \<le> d"
        using floor_log2_bounds [of d] d by simp
      then have "of_int ((2::int) ^ nat (floor_log2 d)) \<le> (of_int d :: rat)"
        by (simp only: of_int_le_iff)
      then show ?thesis
        using floor_log2_nonneg [of d] by (simp add: power_int_def)
    qed
    have "of_int n / of_int d \<le> of_int n / (2::rat) powi floor_log2 d"
      using db n by (intro frac_le) simp_all
    also have "\<dots> < 2 powi (floor_log2 n + 1) / 2 powi floor_log2 d"
      using nb by (simp add: divide_strict_right_mono)
    also have "\<dots> = (2::rat) powi (k + 1)"
      by (simp add: k_def power_int_diff [symmetric] algebra_simps)
    finally show ?thesis
      by (simp add: pow2_powi a)
  qed
  then show ?thesis
    using assms by (auto simp: be)
qed

lemma to_double_nearest:
  assumes "to_double x = Finite r"
  shows "\<bar>r - x\<bar> \<le> pow2 (max (binary_exponent \<bar>x\<bar> - 52) (- 1074)) / 2"
proof (cases "x = 0")
  case True
  then show ?thesis
    using assms by (simp add: to_double_def pow2_powi)
next
  case False
  define q where "q = pow2 (max (binary_exponent \<bar>x\<bar> - 52) (- 1074))"
  define m where "m = round_half_even (\<bar>x\<bar> / q)"
  have qpos: "0 < q"
    by (simp add: q_def pow2_powi)
  have r: "r = (if 0 < x then of_int m * q else - (of_int m * q))"
    using assms False
    by (simp add: to_double_def Let_def q_def m_def split: if_splits)
  have "\<bar>of_int m - \<bar>x\<bar> / q\<bar> \<le> 1 / 2"
    using round_half_even_nearest [of "\<bar>x\<bar> / q"] by (simp add: m_def)
  then have "\<bar>of_int m - \<bar>x\<bar> / q\<bar> * q \<le> 1 / 2 * q"
    using qpos by (simp add: mult_right_mono)
  moreover have "\<bar>of_int m - \<bar>x\<bar> / q\<bar> * q = \<bar>of_int m * q - \<bar>x\<bar>\<bar>"
  proof -
    have "\<bar>of_int m - \<bar>x\<bar> / q\<bar> * q = \<bar>(of_int m - \<bar>x\<bar> / q) * q\<bar>"
      using qpos by (simp add: abs_mult)
    also have "(of_int m - \<bar>x\<bar> / q) * q = of_int m * q - \<bar>x\<bar>"
      using qpos by (simp add: field_simps)
    finally show ?thesis .
  qed
  ultimately have "\<bar>of_int m * q - \<bar>x\<bar>\<bar> \<le> q / 2"
    by simp
  then have "\<bar>r - x\<bar> \<le> q / 2"
    using False by (auto simp: r abs_if split: if_splits)
  then show ?thesis
    by (simp add: q_def)
qed

section \<open>The point table\<close>

text \<open>
  C1. For every integer rank, \<^verbatim>\<open>PointManager.calculate_points\<close> returns the value of the
  fixed table: 20, 14, 12, 10, 8, 6, 4, 2 for the ranks 1 to 8, and 0 for every integer
  outside 1 to 8.
\<close>

theorem calculate_points_table:
  "calculate_points 1 = 20 \<and> calculate_points 2 = 14 \<and> calculate_points 3 = 12 \<and>
   calculate_points 4 = 10 \<and> calculate_points 5 = 8 \<and> calculate_points 6 = 6 \<and>
   calculate_points 7 = 4 \<and> calculate_points 8 = 2 \<and>
   (rank < 1 \<or> 8 < rank \<longrightarrow> calculate_points rank = 0)"
  by (auto simp: calculate_points_def POINT_SYSTEM_def)

theorem calculate_points_table_witness:
  "calculate_points 1 = 20 \<and> calculate_points 8 = 2 \<and> calculate_points 9 = 0 \<and>
   calculate_points 0 = 0 \<and> calculate_points (- 3) = 0"
  using calculate_points_table [of 9] calculate_points_table [of 0]
    calculate_points_table [of "- 3"]
  by simp

section \<open>Applying a batch of matches\<close>

lemma py_int_errors:
  "py_int f v = Inl e \<Longrightarrow> e = ValueError \<or> e = TypeError \<or> e = OverflowError"
  by (auto simp: py_int_def split: pyval.splits pyfloat.splits option.splits)

lemma calculate_points_nonneg: "0 \<le> calculate_points r"
  by (auto simp: calculate_points_def POINT_SYSTEM_def)

lemma update_loop_skip:
  assumes "rank_delta f i = 0" and "py_int f (lp_rank i) \<noteq> Inl OverflowError"
  shows "update_loop f (i # rest) pd ups = update_loop f rest pd ups"
proof (cases "py_int f (lp_rank i)")
  case (Inl e)
  then have "e = ValueError \<or> e = TypeError"
    using py_int_errors [OF Inl] assms(2) by auto
  then show ?thesis
    using Inl by auto
next
  case (Inr r)
  then have "calculate_points r = 0"
    using assms(1) by (simp add: rank_delta_def)
  then show ?thesis
    using Inr by simp
qed

lemma update_loop_add:
  assumes "0 < rank_delta f i" and "map_of pd (lp_tag i) = Some p"
  shows "\<exists>u. update_loop f (i # rest) pd ups =
           update_loop f rest
             (AList.update (lp_tag i) (p\<lparr>points := points p + rank_delta f i\<rparr>) pd)
             (ups @ [u]) \<and>
           u_tag u = lp_tag i \<and> u_name u = lp_name i \<and> u_points_added u = rank_delta f i \<and>
           u_total_points u = points p + rank_delta f i \<and>
           py_int f (lp_rank i) = Inr (u_rank u)"
proof (cases "py_int f (lp_rank i)")
  case (Inl e)
  then show ?thesis
    using assms(1) by (simp add: rank_delta_def)
next
  case (Inr r)
  then have d: "rank_delta f i = calculate_points r"
    by (simp add: rank_delta_def)
  define u where "u = \<lparr>u_tag = lp_tag i, u_name = lp_name i, u_rank = r,
      u_points_added = calculate_points r, u_total_points = points p + calculate_points r\<rparr>"
  have "update_loop f (i # rest) pd ups =
          update_loop f rest
            (AList.update (lp_tag i) (p\<lparr>points := points p + rank_delta f i\<rparr>) pd)
            (ups @ [u])"
    using Inr assms d by (simp add: Let_def u_def)
  moreover have "u_tag u = lp_tag i \<and> u_name u = lp_name i \<and>
      u_points_added u = rank_delta f i \<and> u_total_points u = points p + rank_delta f i \<and>
      py_int f (lp_rank i) = Inr (u_rank u)"
    using Inr d by (simp add: u_def)
  ultimately show ?thesis
    by blast
qed

lemma points_of_update:
  "points_of (AList.update k p pd) t = (if t = k then points p else points_of pd t)"
  by (simp add: points_of_def update_conv')

lemma update_loop_spec:
  assumes "\<forall>i \<in> set ls. py_int f (lp_rank i) \<noteq> Inl OverflowError \<and> map_of pd (lp_tag i) \<noteq> None"
  shows "\<exists>pd' new.
           update_loop f ls pd ups = (None, pd', ups @ new) \<and>
           map (\<lambda>u. (u_tag u, u_points_added u)) new =
             map (\<lambda>i. (lp_tag i, rank_delta f i)) (filter (\<lambda>i. 0 < rank_delta f i) ls) \<and>
           (\<forall>t. points_of pd' t =
                  points_of pd t + sum_list (map (rank_delta f) (filter (\<lambda>i. lp_tag i = t) ls))) \<and>
           fst ` set pd' = fst ` set pd"
  using assms
proof (induction ls arbitrary: pd ups)
  case Nil
  then show ?case by simp
next
  case (Cons i ls)
  have nonneg: "0 \<le> rank_delta f i"
    by (simp add: rank_delta_def calculate_points_nonneg split: sum.splits)
  show ?case
  proof (cases "0 < rank_delta f i")
    case False
    then have z: "rank_delta f i = 0"
      using nonneg by simp
    have step: "update_loop f (i # ls) pd ups = update_loop f ls pd ups"
      using update_loop_skip [OF z] Cons.prems by simp
    obtain pd' new where ih:
      "update_loop f ls pd ups = (None, pd', ups @ new)"
      "map (\<lambda>u. (u_tag u, u_points_added u)) new =
         map (\<lambda>i. (lp_tag i, rank_delta f i)) (filter (\<lambda>i. 0 < rank_delta f i) ls)"
      "\<forall>t. points_of pd' t =
         points_of pd t + sum_list (map (rank_delta f) (filter (\<lambda>i. lp_tag i = t) ls))"
      "fst ` set pd' = fst ` set pd"
      using Cons.IH [of pd ups] Cons.prems by auto
    show ?thesis
      unfolding step using ih z by auto
  next
    case True
    obtain p where p: "map_of pd (lp_tag i) = Some p"
      using Cons.prems by auto
    define pd1 where "pd1 = AList.update (lp_tag i) (p\<lparr>points := points p + rank_delta f i\<rparr>) pd"
    obtain u where step: "update_loop f (i # ls) pd ups = update_loop f ls pd1 (ups @ [u])"
      and u: "u_tag u = lp_tag i" "u_points_added u = rank_delta f i"
      using update_loop_add [OF True p, of ls ups] by (auto simp: pd1_def)
    have keys1: "fst ` set pd1 = fst ` set pd"
      using p by (auto simp: pd1_def dom_update dest: map_of_SomeD intro: rev_image_eqI)
    have "\<forall>j \<in> set ls. py_int f (lp_rank j) \<noteq> Inl OverflowError \<and> map_of pd1 (lp_tag j) \<noteq> None"
      using Cons.prems keys1 by (auto simp: map_of_eq_None_iff)
    then obtain pd' new where ih:
      "update_loop f ls pd1 (ups @ [u]) = (None, pd', (ups @ [u]) @ new)"
      "map (\<lambda>u. (u_tag u, u_points_added u)) new =
         map (\<lambda>i. (lp_tag i, rank_delta f i)) (filter (\<lambda>i. 0 < rank_delta f i) ls)"
      "\<forall>t. points_of pd' t =
         points_of pd1 t + sum_list (map (rank_delta f) (filter (\<lambda>i. lp_tag i = t) ls))"
      "fst ` set pd' = fst ` set pd1"
      using Cons.IH [of pd1 "ups @ [u]"] by blast
    have pts: "points_of pd1 t = points_of pd t + (if lp_tag i = t then rank_delta f i else 0)" for t
      using p by (auto simp: pd1_def points_of_update) (simp add: points_of_def)
    have "update_loop f (i # ls) pd ups = (None, pd', ups @ (u # new))"
      unfolding step using ih(1) by simp
    moreover have "map (\<lambda>u. (u_tag u, u_points_added u)) (u # new) =
         map (\<lambda>i. (lp_tag i, rank_delta f i)) (filter (\<lambda>i. 0 < rank_delta f i) (i # ls))"
      using ih(2) u True by simp
    moreover have "\<forall>t. points_of pd' t =
         points_of pd t + sum_list (map (rank_delta f) (filter (\<lambda>j. lp_tag j = t) (i # ls)))"
      using ih(3) pts by simp
    moreover have "fst ` set pd' = fst ` set pd"
      using ih(4) keys1 by simp
    ultimately show ?thesis
      by blast
  qed
qed

text \<open>
  What \<^verbatim>\<open>update_points_for_leaderboard\<close> does on a batch in which every tag is linked and
  no rank is an infinite float: it returns normally; a rank that \<^verbatim>\<open>int\<close> rejects with
  \<^verbatim>\<open>ValueError\<close> or \<^verbatim>\<open>TypeError\<close> is skipped and the records after it are processed; a
  rank worth 0 points is skipped; every other record adds its points to its tag and is
  reported, in order; and \<^verbatim>\<open>save_player_data\<close> is called once when the returned list is
  not empty, and not at all when it is.
\<close>

theorem update_points_for_leaderboard_spec:
  assumes "\<forall>i \<in> set ls. py_int f (lp_rank i) \<noteq> Inl OverflowError \<and> map_of pd (lp_tag i) \<noteq> None"
  shows "\<exists>pd' ups.
           update_points_for_leaderboard f ls pd ua s =
             (Inr ups, pd',
              if ups = [] then s else save_player_data (registry_globals pd' ua) s) \<and>
           map (\<lambda>u. (u_tag u, u_points_added u)) ups =
             map (\<lambda>i. (lp_tag i, rank_delta f i)) (filter (\<lambda>i. 0 < rank_delta f i) ls) \<and>
           (\<forall>t. points_of pd' t =
                  points_of pd t + sum_list (map (rank_delta f) (filter (\<lambda>i. lp_tag i = t) ls)))"
proof (cases "ls = []")
  case True
  then show ?thesis
    by (simp add: update_points_for_leaderboard_def)
next
  case False
  obtain pd' new where r: "update_loop f ls pd [] = (None, pd', [] @ new)"
    and m: "map (\<lambda>u. (u_tag u, u_points_added u)) new =
             map (\<lambda>i. (lp_tag i, rank_delta f i)) (filter (\<lambda>i. 0 < rank_delta f i) ls)"
    and pts: "\<forall>t. points_of pd' t =
         points_of pd t + sum_list (map (rank_delta f) (filter (\<lambda>i. lp_tag i = t) ls))"
    using update_loop_spec [OF assms, of "[]"] by blast
  have "update_points_for_leaderboard f ls pd ua s =
          (Inr new, pd', if new = [] then s else save_player_data (registry_globals pd' ua) s)"
    using False r by (simp add: update_points_for_leaderboard_def)
  then show ?thesis
    using m pts by blast
qed

theorem update_points_for_leaderboard_spec_witness:
  "\<exists>pd' ups.
     update_points_for_leaderboard (\<lambda>s. None) example_batch example_registry
         example_accounts empty_store =
       (Inr ups, pd', save_player_data (registry_globals pd' example_accounts) empty_store) \<and>
     map (\<lambda>u. (u_tag u, u_points_added u)) ups = [(''PYL'', 20), (''0289'', 14)] \<and>
     points_of pd' ''PYL'' = 40 \<and> points_of pd' ''0289'' = 18 \<and> points_of pd' ''QQQ'' = 0"
proof -
  have hyp: "\<forall>i \<in> set example_batch.
      py_int (\<lambda>s. None) (lp_rank i) \<noteq> Inl OverflowError \<and>
      map_of example_registry (lp_tag i) \<noteq> None"
    by code_simp
  have applied: "map (\<lambda>i. (lp_tag i, rank_delta (\<lambda>s. None) i))
        (filter (\<lambda>i. 0 < rank_delta (\<lambda>s. None) i) example_batch) =
      [(''PYL'', 20), (''0289'', 14)]"
    by code_simp
  have sums:
    "points_of example_registry ''PYL'' + sum_list (map (rank_delta (\<lambda>s. None))
       (filter (\<lambda>i. lp_tag i = ''PYL'') example_batch)) = 40"
    "points_of example_registry ''0289'' + sum_list (map (rank_delta (\<lambda>s. None))
       (filter (\<lambda>i. lp_tag i = ''0289'') example_batch)) = 18"
    "points_of example_registry ''QQQ'' + sum_list (map (rank_delta (\<lambda>s. None))
       (filter (\<lambda>i. lp_tag i = ''QQQ'') example_batch)) = 0"
    by code_simp+
  obtain pd' ups where
    run: "update_points_for_leaderboard (\<lambda>s. None) example_batch example_registry
            example_accounts empty_store =
          (Inr ups, pd',
           if ups = [] then empty_store
           else save_player_data (registry_globals pd' example_accounts) empty_store)"
    and ups: "map (\<lambda>u. (u_tag u, u_points_added u)) ups =
          map (\<lambda>i. (lp_tag i, rank_delta (\<lambda>s. None) i))
            (filter (\<lambda>i. 0 < rank_delta (\<lambda>s. None) i) example_batch)"
    and pts: "\<forall>t. points_of pd' t =
          points_of example_registry t + sum_list (map (rank_delta (\<lambda>s. None))
            (filter (\<lambda>i. lp_tag i = t) example_batch))"
    using update_points_for_leaderboard_spec [OF hyp, of example_accounts empty_store]
    by blast
  have ups': "map (\<lambda>u. (u_tag u, u_points_added u)) ups = [(''PYL'', 20), (''0289'', 14)]"
    using ups applied by simp
  then have "ups \<noteq> []"
    by auto
  then have run': "update_points_for_leaderboard (\<lambda>s. None) example_batch example_registry
            example_accounts empty_store =
          (Inr ups, pd', save_player_data (registry_globals pd' example_accounts) empty_store)"
    using run by simp
  have "points_of pd' ''PYL'' = 40" "points_of pd' ''0289'' = 18" "points_of pd' ''QQQ'' = 0"
    using pts sums by simp_all
  then have "update_points_for_leaderboard (\<lambda>s. None) example_batch example_registry
         example_accounts empty_store =
       (Inr ups, pd', save_player_data (registry_globals pd' example_accounts) empty_store) \<and>
     map (\<lambda>u. (u_tag u, u_points_added u)) ups = [(''PYL'', 20), (''0289'', 14)] \<and>
     points_of pd' ''PYL'' = 40 \<and> points_of pd' ''0289'' = 18 \<and> points_of pd' ''QQQ'' = 0"
    using run' ups' by (intro conjI)
  then show ?thesis
    by (intro exI)
qed

text \<open>
  C2. The specification says that a record whose rank cannot be coerced to an integer is
  skipped and never aborts the batch, and that one write follows when a delta was applied.
  The code does not do this for a rank that is an infinite float, which the page can carry
  as \<^verbatim>\<open>Infinity\<close> or \<^verbatim>\<open>1e999\<close>: \<^verbatim>\<open>int(rank)\<close> raises \<^verbatim>\<open>OverflowError\<close>, which
  \<^verbatim>\<open>except (ValueError, TypeError)\<close> does not catch. In the batch below the first record
  has already added its 20 points in memory; the exception leaves the function, the third
  record is never processed and nothing is saved.
\<close>

theorem update_points_infinite_rank_aborts:
  "update_points_for_leaderboard int_of_str
     [\<lparr>lp_tag = ''PYL'', lp_name = PStr ''Ann'', lp_rank = PInt 1\<rparr>,
      \<lparr>lp_tag = ''QQQ'', lp_name = PStr ''Ann'', lp_rank = PFloat PosInf\<rparr>,
      \<lparr>lp_tag = ''0289'', lp_name = PStr ''Bob'', lp_rank = PInt 2\<rparr>]
     example_registry example_accounts empty_store =
   (Inl OverflowError,
    [(''PYL'', \<lparr>discord_id = 7, points = 40, name = ''Ann''\<rparr>),
     (''QQQ'', \<lparr>discord_id = 7, points = 0, name = ''Ann''\<rparr>),
     (''0289'', \<lparr>discord_id = 12, points = 4, name = ''Bob''\<rparr>)],
    empty_store)"
  by code_simp

section \<open>Loading: primary store, backup, empty registry\<close>

text \<open>
  C3 as the specification states it: \<^verbatim>\<open>load_player_data\<close> falls back to the backup on any
  read or parse failure of the primary as well as on its absence. This fails on the code.
  With a primary file that does not parse and a good backup, the specification's rule
  \<open>load_spec\<close> gives the backup's contents, and \<^verbatim>\<open>load_player_data\<close> gives the empty
  registry: the exception of \<^verbatim>\<open>json.load\<close> leaves the \<^verbatim>\<open>try\<close> block before the backup is
  looked at.
\<close>

theorem load_player_data_corrupt_primary:
  "load_player_data \<lparr>data_file = Some Garbage, backup_file = Some (Doc example_doc),
                      faulty = False\<rparr> = empty_globals \<and>
   load_spec \<lparr>data_file = Some Garbage, backup_file = Some (Doc example_doc),
               faulty = False\<rparr> = example_loaded \<and>
   example_loaded \<noteq> empty_globals"
proof -
  have "stored (Some Garbage) = None"
    by (simp add: stored_def)
  then show ?thesis
    by (simp add: load_player_data_def load_try_def load_file_def read_json_def load_spec_def
        stored_example_doc example_loaded_def empty_globals_def)
qed

text \<open>
  C3, amended. \<^verbatim>\<open>load_player_data\<close> never raises and reads the primary file first. It
  falls back to the backup only when the primary file is absent: then it returns the backup's
  contents when the backup can be read, and the empty registry when the backup is absent or
  corrupt. A primary file that exists but cannot be read or parsed gives the empty registry,
  whatever the backup holds; so does a storage failure, and every exception of the
  \<^verbatim>\<open>try\<close> block.
\<close>

theorem load_player_data_fallback:
  "(faulty s \<longrightarrow> load_player_data s = empty_globals) \<and>
   (\<not> faulty s \<and> stored (data_file s) = Some g \<longrightarrow> load_player_data s = g) \<and>
   (\<not> faulty s \<and> data_file s = None \<and> stored (backup_file s) = Some g
      \<longrightarrow> load_player_data s = g) \<and>
   (\<not> faulty s \<and> data_file s = None \<and> stored (backup_file s) = None
      \<longrightarrow> load_player_data s = empty_globals) \<and>
   (data_file s \<noteq> None \<and> stored (data_file s) = None
      \<longrightarrow> load_player_data s = empty_globals) \<and>
   (\<forall>e. load_try s = Inl e \<longrightarrow> load_player_data s = empty_globals)"
  using load_file_cases [of "data_file s"] load_file_cases [of "backup_file s"]
  by (auto simp: load_player_data_def load_try_def stored_def)

text \<open>
  The amended rule at concrete stores: only a backup present; a good primary beside a corrupt
  backup; only a corrupt backup; no file at all; a primary that is JSON but not an object,
  beside a good backup; a storage failure.
\<close>

theorem load_player_data_fallback_witness:
  "load_player_data \<lparr>data_file = None, backup_file = Some (Doc example_doc),
                      faulty = False\<rparr> = example_loaded \<and>
   load_player_data \<lparr>data_file = Some (Doc example_doc), backup_file = Some Garbage,
                      faulty = False\<rparr> = example_loaded \<and>
   load_player_data \<lparr>data_file = None, backup_file = Some Garbage,
                      faulty = False\<rparr> = empty_globals \<and>
   load_player_data \<lparr>data_file = None, backup_file = None, faulty = False\<rparr> = empty_globals \<and>
   load_player_data \<lparr>data_file = Some (Doc (JArr [])), backup_file = Some (Doc example_doc),
                      faulty = False\<rparr> = empty_globals \<and>
   load_player_data \<lparr>data_file = Some (Doc example_doc), backup_file = None,
                      faulty = True\<rparr> = empty_globals"
  using load_player_data_fallback [of "\<lparr>data_file = None, backup_file = Some (Doc example_doc),
          faulty = False\<rparr>" example_loaded]
    load_player_data_fallback [of "\<lparr>data_file = Some (Doc example_doc),
          backup_file = Some Garbage, faulty = False\<rparr>" example_loaded]
    load_player_data_fallback [of "\<lparr>data_file = None, backup_file = Some Garbage,
          faulty = False\<rparr>"]
    load_player_data_fallback [of "\<lparr>data_file = None, backup_file = None, faulty = False\<rparr>"]
    load_player_data_fallback [of "\<lparr>data_file = Some (Doc (JArr [])),
          backup_file = Some (Doc example_doc), faulty = False\<rparr>"]
    load_player_data_fallback [of "\<lparr>data_file = Some (Doc example_doc), backup_file = None,
          faulty = True\<rparr>"]
  by (simp add: stored_example_doc) (simp add: stored_def)

section \<open>What is saved and where the index comes from\<close>

text \<open>
  C4 as the specification states it: \<^verbatim>\<open>save_player_data\<close> writes only the identity
  records, and after a load the index is rebuilt from the loaded records, never taken from
  the file. This fails on the code. Saving the example registry into an empty store writes
  a document with a \<^verbatim>\<open>user_accounts\<close> member beside \<^verbatim>\<open>player_data\<close>; and loading a file
  whose index disagrees with its records returns that index as it stands in the file, while
  the index rebuilt from the same records is a different one.
\<close>

theorem index_is_saved_and_loaded:
  "data_file (save_player_data (registry_globals example_registry example_accounts) empty_store) =
     Some (Doc example_saved_doc) \<and>
   load_player_data \<lparr>data_file = Some (Doc stale_index_doc), backup_file = None,
                      faulty = False\<rparr> =
     \<lparr>player_data = registry_val [(''PYL'', \<lparr>discord_id = 7, points = 20, name = ''Ann''\<rparr>)],
      user_accounts = PDict [(KStr ''99'', PList [PStr ''QQQ''])]\<rparr> \<and>
   accounts_val
     (update_user_accounts [(''PYL'', \<lparr>discord_id = 7, points = 20, name = ''Ann''\<rparr>)]) =
     PDict [(KInt 7, PList [PStr ''PYL''])]"
  by code_simp

text \<open>
  C4, amended. \<^verbatim>\<open>save_player_data\<close> writes both globals, the identity records and the
  index, into the data file. \<^verbatim>\<open>load_player_data\<close> takes the index from the file it reads
  (the last \<^verbatim>\<open>user_accounts\<close> member of the document, \<^verbatim>\<open>{}\<close> when there is none). The
  index is rebuilt from the identity records by \<^verbatim>\<open>update_user_accounts\<close>, which
  \<^verbatim>\<open>on_ready\<close> and the main block call right after loading: under every key it lists
  exactly the tags whose record names that owner, whatever index was loaded.
\<close>

theorem save_writes_both_load_reads_index:
  "(\<not> faulty s \<longrightarrow>
      data_file (save_player_data g s) =
        Some (Doc (JObj [(''player_data'', json_dump (player_data g)),
                         (''user_accounts'', json_dump (user_accounts g))]))) \<and>
   (\<not> faulty s \<and> data_file s = Some (Doc (JObj kvs)) \<longrightarrow>
      user_accounts (load_player_data s) =
        (case map_of (rev kvs) ''user_accounts'' of
           Some j \<Rightarrow> json_load j | None \<Rightarrow> PDict [])) \<and>
   tagset (update_user_accounts pd) k =
     {t. \<exists>p. (t, p) \<in> set pd \<and> KInt (discord_id p) = k}"
proof -
  have a: "\<not> faulty s \<Longrightarrow>
      data_file (save_player_data g s) =
        Some (Doc (JObj [(''player_data'', json_dump (player_data g)),
                         (''user_accounts'', json_dump (user_accounts g))]))"
    by (cases "data_file s") (simp_all add: save_player_data_def key_str_def)
  have "map_of (dict_of (map (map_prod KStr json_load) kvs)) (KStr ''user_accounts'') =
        map_option json_load (map_of (rev kvs) ''user_accounts'')"
    using map_of_map_KStr [of json_load "rev kvs" "''user_accounts''"]
    by (simp add: map_of_dict_of rev_map)
  then have b: "\<not> faulty s \<Longrightarrow> data_file s = Some (Doc (JObj kvs)) \<Longrightarrow>
      user_accounts (load_player_data s) =
        (case map_of (rev kvs) ''user_accounts'' of
           Some j \<Rightarrow> json_load j | None \<Rightarrow> PDict [])"
    by (simp add: load_player_data_def load_try_def load_file_def read_json_def py_get_def
        split: option.splits)
  show ?thesis
    using a b by (simp add: tagset_update_user_accounts)
qed

theorem save_writes_both_load_reads_index_witness:
  "data_file (save_player_data (registry_globals example_registry example_accounts) empty_store) =
     Some (Doc (JObj [(''player_data'', json_dump (registry_val example_registry)),
                      (''user_accounts'', json_dump (accounts_val example_accounts))])) \<and>
   user_accounts (load_player_data \<lparr>data_file = Some (Doc stale_index_doc),
                                     backup_file = None, faulty = False\<rparr>) =
     PDict [(KStr ''99'', PList [PStr ''QQQ''])] \<and>
   ''QQQ'' \<in> tagset (update_user_accounts example_registry) (KInt 7)"
proof -
  define members where
    "members = [(''player_data'',
                 JObj [(''PYL'', JObj [(''discord_id'', JInt 7), (''points'', JInt 20),
                                       (''name'', JStr ''Ann'')])]),
                (''user_accounts'', JObj [(''99'', JArr [JStr ''QQQ''])])]"
  define stale where
    "stale = \<lparr>data_file = Some (Doc (JObj members)), backup_file = None, faulty = False\<rparr>"
  note saved = save_writes_both_load_reads_index
    [of empty_store "registry_globals example_registry example_accounts"
      members example_registry "KInt 7", THEN conjunct1]
  note loaded = save_writes_both_load_reads_index
    [of stale "registry_globals example_registry example_accounts"
      members example_registry "KInt 7", THEN conjunct2, THEN conjunct1]
  note rebuilt = save_writes_both_load_reads_index
    [of stale "registry_globals example_registry example_accounts"
      members example_registry "KInt 7", THEN conjunct2, THEN conjunct2]
  have a: "data_file (save_player_data (registry_globals example_registry example_accounts)
             empty_store) =
           Some (Doc (JObj [(''player_data'', json_dump (registry_val example_registry)),
                            (''user_accounts'', json_dump (accounts_val example_accounts))]))"
    using saved by (simp add: empty_store_def registry_globals_def)
  have "map_of (rev members) ''user_accounts'' = Some (JObj [(''99'', JArr [JStr ''QQQ''])])"
    by (simp add: members_def)
  moreover have "json_load (JObj [(''99'', JArr [JStr ''QQQ''])]) =
                 PDict [(KStr ''99'', PList [PStr ''QQQ''])]"
    by (simp add: dict_of_def)
  moreover have "\<not> faulty stale \<and> data_file stale = Some (Doc (JObj members))"
    by (simp add: stale_def)
  ultimately have "user_accounts (load_player_data stale) =
                   PDict [(KStr ''99'', PList [PStr ''QQQ''])]"
    using loaded by simp
  then have b: "user_accounts (load_player_data \<lparr>data_file = Some (Doc stale_index_doc),
                   backup_file = None, faulty = False\<rparr>) =
                PDict [(KStr ''99'', PList [PStr ''QQQ''])]"
    by (simp add: stale_def members_def stale_index_doc_def)
  have "(''QQQ'', \<lparr>discord_id = 7, points = 0, name = ''Ann''\<rparr>) \<in> set example_registry"
    by (simp add: example_registry_def)
  then have "\<exists>p. (''QQQ'', p) \<in> set example_registry \<and> KInt (discord_id p) = KInt 7"
    by (intro exI [of _ "\<lparr>discord_id = 7, points = 0, name = ''Ann''\<rparr>"]) simp
  then have c: "''QQQ'' \<in> tagset (update_user_accounts example_registry) (KInt 7)"
    unfolding rebuilt by simp
  show ?thesis
    using a b c by simp
qed

section \<open>Saving and loading again\<close>

text \<open>
  C5. For every registry state (a dictionary of identity records under distinct tags, with
  any index), saving it with \<^verbatim>\<open>save_player_data\<close> and loading it with
  \<^verbatim>\<open>load_player_data\<close> brings back the same \<^verbatim>\<open>player_data\<close>: the same tags in the same
  order, each with the same owner id, points and name. The store is one that can be
  written. The index is not part of the statement.
\<close>

theorem save_load_round_trip:
  "distinct (map fst pd) \<Longrightarrow> \<not> faulty s \<Longrightarrow>
   player_data (load_player_data (save_player_data (registry_globals pd ua) s)) =
     registry_val pd"
  by (simp add: load_after_save registry_globals_def registry_val_round_trip)

theorem save_load_round_trip_witness:
  "player_data (load_player_data
      (save_player_data (registry_globals example_registry example_accounts) empty_store)) =
     registry_val example_registry"
  using save_load_round_trip [of example_registry empty_store example_accounts]
  by (simp add: example_registry_def empty_store_def)

section \<open>The rank matcher\<close>




section \<open>Order percentages\<close>




section \<open>The trailing-comma cleanup\<close>

text \<open>
  The recursive test \<open>has_trailing_comma\<close> says what it should: the string can be cut
  into a prefix, a comma, a run of whitespace, a closing \<^verbatim>\<open>]\<close> or \<^verbatim>\<open>}\<close>, and a rest.
\<close>

lemma closes_next_iff:
  assumes "\<not> is_space c"
  shows "closes_next c xs \<longleftrightarrow> (\<exists>w v. xs = w @ c # v \<and> (\<forall>x \<in> set w. is_space x))"
proof
  assume "closes_next c xs"
  then obtain ys where "dropWhile is_space xs = c # ys"
    by (auto simp: closes_next_def split: list.splits)
  then have "xs = takeWhile is_space xs @ c # ys"
    by (metis takeWhile_dropWhile_id)
  moreover have "\<forall>x \<in> set (takeWhile is_space xs). is_space x"
    by (auto dest: set_takeWhileD)
  ultimately show "\<exists>w v. xs = w @ c # v \<and> (\<forall>x \<in> set w. is_space x)"
    by blast
next
  assume "\<exists>w v. xs = w @ c # v \<and> (\<forall>x \<in> set w. is_space x)"
  then obtain w v where "xs = w @ c # v" and "\<forall>x \<in> set w. is_space x"
    by blast
  then have "dropWhile is_space xs = c # v"
    using assms by (simp add: dropWhile_append3)
  then show "closes_next c xs"
    by (simp add: closes_next_def)
qed

lemma has_trailing_comma_iff:
  "has_trailing_comma s \<longleftrightarrow>
   (\<exists>u w c v. s = u @ CHR '','' # w @ c # v \<and> (\<forall>x \<in> set w. is_space x) \<and>
               (c = CHR '']'' \<or> c = CHR ''}''))"
proof (induction s)
  case Nil
  then show ?case by simp
next
  case (Cons x xs)
  have sp: "\<not> is_space (CHR '']'')" "\<not> is_space (CHR ''}'')"
    by (simp_all add: is_space_def)
  show ?case
  proof
    assume "has_trailing_comma (x # xs)"
    then consider
      (here) "x = CHR '',''" "closes_next (CHR '']'') xs \<or> closes_next (CHR ''}'') xs"
      | (later) "has_trailing_comma xs"
      by auto
    then show "\<exists>u w c v. x # xs = u @ CHR '','' # w @ c # v \<and> (\<forall>x \<in> set w. is_space x) \<and>
               (c = CHR '']'' \<or> c = CHR ''}'')"
    proof cases
      case here
      then obtain w c v where w: "xs = w @ c # v" "\<forall>x \<in> set w. is_space x"
        and c: "c = CHR '']'' \<or> c = CHR ''}''"
        using closes_next_iff [OF sp(1), of xs] closes_next_iff [OF sp(2), of xs] by blast
      then have "x # xs = [] @ CHR '','' # w @ c # v"
        using here by simp
      then show ?thesis
        using w(2) c by blast
    next
      case later
      then obtain u w c v where w: "xs = u @ CHR '','' # w @ c # v" "\<forall>x \<in> set w. is_space x"
        and c: "c = CHR '']'' \<or> c = CHR ''}''"
        using Cons.IH by blast
      then have "x # xs = (x # u) @ CHR '','' # w @ c # v"
        by simp
      then show ?thesis
        using w(2) c by blast
    qed
  next
    assume "\<exists>u w c v. x # xs = u @ CHR '','' # w @ c # v \<and> (\<forall>x \<in> set w. is_space x) \<and>
               (c = CHR '']'' \<or> c = CHR ''}'')"
    then obtain u w c v where eq: "x # xs = u @ CHR '','' # w @ c # v"
      and w: "\<forall>x \<in> set w. is_space x" and c: "c = CHR '']'' \<or> c = CHR ''}''"
      by blast
    show "has_trailing_comma (x # xs)"
    proof (cases u)
      case Nil
      then have x: "x = CHR '',''" and "xs = w @ c # v"
        using eq by simp_all
      then have "closes_next c xs"
        using closes_next_iff [of c xs] w c sp by blast
      then show ?thesis
        using c x by auto
    next
      case (Cons y u')
      then have "xs = u' @ CHR '','' # w @ c # v"
        using eq by simp
      then have "has_trailing_comma xs"
        using Cons.IH w c by blast
      then show ?thesis by simp
    qed
  qed
qed




text \<open>
  What the cleanup is for, and where the condition of C8 is needed: trailing commas are
  removed; and on a string with two commas before a closing bracket, here inside a JSON
  string literal, the second pass strips again.
\<close>

lemma cleanup_strips_trailing_commas:
  "cleanup ''[{\"tag\": \"#PYL\", \"rank\": 1, }, ]'' = ''[{\"tag\": \"#PYL\", \"rank\": 1}]''"
  by (simp add: cleanup_def closes_next_def is_space_def)

lemma cleanup_twice_on_comma_run:
  "cleanup ''[\",,]\"]'' = ''[\",]\"]'' \<and> cleanup (cleanup ''[\",,]\"]'') = ''[\"]\"]''"
  by (simp add: cleanup_def closes_next_def is_space_def)

section \<open>Linking a tag\<close>

text \<open>
  What the regular expression of \<^verbatim>\<open>validate_player_tag\<close> accepts: at least three characters
  of the alphabet, and after them nothing or one newline.
\<close>

lemma validate_player_tag_iff:
  "validate_player_tag t \<longleftrightarrow>
   (\<exists>body. (upper t = body \<or> upper t = body @ [CHR 0x0A]) \<and> 3 \<le> length body \<and>
           list_all in_alphabet body)"
proof
  assume v: "validate_player_tag t"
  define u where "u = upper t"
  define body where "body = takeWhile in_alphabet u"
  have split: "u = body @ dropWhile in_alphabet u"
    by (simp add: body_def)
  have al: "list_all in_alphabet body"
    by (auto simp: body_def list_all_iff dest: set_takeWhileD)
  have len: "3 \<le> length body"
    using v by (simp add: validate_player_tag_def u_def body_def Let_def)
  have "dropWhile in_alphabet u = [] \<or> dropWhile in_alphabet u = [CHR 0x0A]"
    using v by (simp add: validate_player_tag_def u_def Let_def)
  then have "u = body \<or> u = body @ [CHR 0x0A]"
    using split by (metis append_Nil2)
  then have "(upper t = body \<or> upper t = body @ [CHR 0x0A]) \<and> 3 \<le> length body \<and>
           list_all in_alphabet body"
    using al len by (simp add: u_def)
  then show "\<exists>body. (upper t = body \<or> upper t = body @ [CHR 0x0A]) \<and> 3 \<le> length body \<and>
           list_all in_alphabet body"
    by (rule exI)
next
  assume "\<exists>body. (upper t = body \<or> upper t = body @ [CHR 0x0A]) \<and> 3 \<le> length body \<and>
           list_all in_alphabet body"
  then obtain body where u: "upper t = body \<or> upper t = body @ [CHR 0x0A]"
    and len: "3 \<le> length body" and al: "list_all in_alphabet body"
    by blast
  have nl: "\<not> in_alphabet (CHR 0x0A)"
    by (simp add: in_alphabet_def)
  have all: "\<And>c. c \<in> set body \<Longrightarrow> in_alphabet c"
    using al by (simp add: list_all_iff)
  have t0: "takeWhile in_alphabet body = body" and d0: "dropWhile in_alphabet body = []"
    using all by simp_all
  have t1: "takeWhile in_alphabet (body @ [CHR 0x0A]) = body"
    using all nl by (simp add: takeWhile_append2)
  have d1: "dropWhile in_alphabet (body @ [CHR 0x0A]) = [CHR 0x0A]"
    using all nl by (simp add: dropWhile_append2)
  from u show "validate_player_tag t"
  proof
    assume e: "upper t = body"
    show ?thesis
      unfolding validate_player_tag_def Let_def e t0 d0 using len by simp
  next
    assume e: "upper t = body @ [CHR 0x0A]"
    show ?thesis
      unfolding validate_player_tag_def Let_def e t1 d1 using len by simp
  qed
qed

text \<open>
  The three outcomes of \<^verbatim>\<open>link_slash\<close>. A tag that is empty or fails the validation is
  rejected as invalid, a valid tag that is a key of the registry as already linked; in both
  cases the registry, the index and the store stay as they are. Otherwise a record with the
  owner id, 0 points and the display name is added under the normalized tag, the tag is
  added to the owner's list in the index, and the state is saved.
\<close>

theorem link_slash_outcomes:
  "(normalize_tag raw = [] \<or> \<not> validate_player_tag (normalize_tag raw) \<longrightarrow>
      link_slash raw uid nm pd ua s = (InvalidTag, pd, ua, s)) \<and>
   (normalize_tag raw \<noteq> [] \<and> validate_player_tag (normalize_tag raw) \<and>
    map_of pd (normalize_tag raw) \<noteq> None \<longrightarrow>
      link_slash raw uid nm pd ua s = (AlreadyLinked, pd, ua, s)) \<and>
   (normalize_tag raw \<noteq> [] \<and> validate_player_tag (normalize_tag raw) \<and>
    map_of pd (normalize_tag raw) = None \<longrightarrow>
      (\<exists>pd' ua'.
         link_slash raw uid nm pd ua s =
           (Linked, pd', ua', save_player_data (registry_globals pd' ua') s) \<and>
         pd' = pd @ [(normalize_tag raw, \<lparr>discord_id = uid, points = 0, name = nm\<rparr>)] \<and>
         tagset ua' (KInt uid) = tagset ua (KInt uid) \<union> {normalize_tag raw} \<and>
         (\<forall>k. k \<noteq> KInt uid \<longrightarrow> tagset ua' k = tagset ua k)))"
proof -
  define tg where "tg = normalize_tag raw"
  define ua1 where "ua1 = (if map_of ua (KInt uid) = None then AList.update (KInt uid) [] ua else ua)"
  define ua' where "ua' = AList.map_entry (KInt uid) (\<lambda>tags. tags @ [tg]) ua1"
  have t1: "tagset ua1 k = tagset ua k" for k
    by (auto simp: ua1_def tagset_def update_conv')
  have d1: "map_of ua1 (KInt uid) \<noteq> None"
    by (auto simp: ua1_def update_conv')
  have t2: "tagset ua' (KInt uid) = tagset ua (KInt uid) \<union> {tg}"
    using d1 t1 [of "KInt uid"] by (auto simp: ua'_def tagset_def map_of_map_entry split: option.splits)
  have t3: "k \<noteq> KInt uid \<Longrightarrow> tagset ua' k = tagset ua k" for k
    using t1 [of k] by (auto simp: ua'_def tagset_def map_of_map_entry)
  have fresh: "map_of pd tg = None \<Longrightarrow>
      AList.update tg \<lparr>discord_id = uid, points = 0, name = nm\<rparr> pd =
      pd @ [(tg, \<lparr>discord_id = uid, points = 0, name = nm\<rparr>)]"
    by (simp add: update_fresh map_of_eq_None_iff)
  have inv: "tg = [] \<or> \<not> validate_player_tag tg \<Longrightarrow>
      link_slash raw uid nm pd ua s = (InvalidTag, pd, ua, s)"
    by (simp add: link_slash_def Let_def tg_def)
  have dup: "tg \<noteq> [] \<Longrightarrow> validate_player_tag tg \<Longrightarrow> map_of pd tg \<noteq> None \<Longrightarrow>
      link_slash raw uid nm pd ua s = (AlreadyLinked, pd, ua, s)"
    by (simp add: link_slash_def Let_def tg_def)
  have ok: "tg \<noteq> [] \<Longrightarrow> validate_player_tag tg \<Longrightarrow> map_of pd tg = None \<Longrightarrow>
      link_slash raw uid nm pd ua s =
        (Linked, pd @ [(tg, \<lparr>discord_id = uid, points = 0, name = nm\<rparr>)], ua',
         save_player_data
           (registry_globals (pd @ [(tg, \<lparr>discord_id = uid, points = 0, name = nm\<rparr>)]) ua') s)"
    using fresh
    by (simp add: link_slash_def Let_def tg_def [symmetric] ua1_def [symmetric]
        ua'_def [symmetric])
  show ?thesis
    unfolding tg_def [symmetric] using inv dup ok t2 t3 by blast
qed

text \<open>
  The three outcomes on the example registry: a tag with a letter outside the alphabet, a
  tag that is linked already, and a new tag for a new owner.
\<close>

theorem link_slash_outcomes_witness:
  "link_slash ''#abc'' 5 ''Eve'' example_registry example_accounts empty_store =
     (InvalidTag, example_registry, example_accounts, empty_store) \<and>
   link_slash ''#pyl'' 5 ''Eve'' example_registry example_accounts empty_store =
     (AlreadyLinked, example_registry, example_accounts, empty_store) \<and>
   (\<exists>pd' ua'.
      link_slash ''#gg2'' 5 ''Eve'' example_registry example_accounts empty_store =
        (Linked, pd', ua', save_player_data (registry_globals pd' ua') empty_store) \<and>
      pd' = example_registry @ [(''GG2'', \<lparr>discord_id = 5, points = 0, name = ''Eve''\<rparr>)] \<and>
      tagset ua' (KInt 5) = {''GG2''})"
proof -
  have n: "normalize_tag ''#abc'' = ''ABC''" "normalize_tag ''#pyl'' = ''PYL''"
    "normalize_tag ''#gg2'' = ''GG2''"
    by code_simp+
  have v: "\<not> validate_player_tag ''ABC''" "validate_player_tag ''PYL''"
    "validate_player_tag ''GG2''"
    by code_simp+
  have m: "map_of example_registry ''PYL'' \<noteq> None" "map_of example_registry ''GG2'' = None"
    by (simp_all add: example_registry_def)
  have e: "tagset example_accounts (KInt 5) = {}"
    by (simp add: tagset_def example_accounts_def)
  note invalid = link_slash_outcomes
    [of "''#abc''" 5 "''Eve''" example_registry example_accounts empty_store, THEN conjunct1]
  note linked = link_slash_outcomes
    [of "''#pyl''" 5 "''Eve''" example_registry example_accounts empty_store,
      THEN conjunct2, THEN conjunct1]
  note fresh = link_slash_outcomes
    [of "''#gg2''" 5 "''Eve''" example_registry example_accounts empty_store,
      THEN conjunct2, THEN conjunct2]
  have a: "link_slash ''#abc'' 5 ''Eve'' example_registry example_accounts empty_store =
     (InvalidTag, example_registry, example_accounts, empty_store)"
    using invalid n(1) v(1) by simp
  have b: "link_slash ''#pyl'' 5 ''Eve'' example_registry example_accounts empty_store =
     (AlreadyLinked, example_registry, example_accounts, empty_store)"
    using linked n(2) v(2) m(1) by simp
  obtain pd' ua' where
    "link_slash ''#gg2'' 5 ''Eve'' example_registry example_accounts empty_store =
        (Linked, pd', ua', save_player_data (registry_globals pd' ua') empty_store)"
    "pd' = example_registry @ [(''GG2'', \<lparr>discord_id = 5, points = 0, name = ''Eve''\<rparr>)]"
    "tagset ua' (KInt 5) = tagset example_accounts (KInt 5) \<union> {''GG2''}"
    using fresh n(3) v(3) m(2) by auto
  then have "link_slash ''#gg2'' 5 ''Eve'' example_registry example_accounts empty_store =
        (Linked, pd', ua', save_player_data (registry_globals pd' ua') empty_store) \<and>
      pd' = example_registry @ [(''GG2'', \<lparr>discord_id = 5, points = 0, name = ''Eve''\<rparr>)] \<and>
      tagset ua' (KInt 5) = {''GG2''}"
    using e by simp
  then have c: "\<exists>pd' ua'.
      link_slash ''#gg2'' 5 ''Eve'' example_registry example_accounts empty_store =
        (Linked, pd', ua', save_player_data (registry_globals pd' ua') empty_store) \<and>
      pd' = example_registry @ [(''GG2'', \<lparr>discord_id = 5, points = 0, name = ''Eve''\<rparr>)] \<and>
      tagset ua' (KInt 5) = {''GG2''}"
    by (intro exI)
  show ?thesis
    using a b c by (intro conjI)
qed

text \<open>
  C9. The specification says that \<^verbatim>\<open>link\<close> rejects as invalid every tag whose normalized
  form does not consist solely of characters of the alphabet, and that no record is created
  then. The code does not do this for a tag that ends in a newline: the \<^verbatim>\<open>$\<close> of the
  regular expression matches before a final newline, so the tag passes the validation
  although the newline is not in the alphabet, and a record is created under a key that
  contains the newline.
\<close>

theorem link_trailing_newline_accepted:
  "validate_player_tag (''PYL'' @ [CHR 0x0A]) \<and>
   \<not> in_alphabet (CHR 0x0A) \<and>
   link_slash (''#pyl'' @ [CHR 0x0A]) 7 ''Ann'' [] [] empty_store =
     (Linked,
      [(''PYL'' @ [CHR 0x0A], \<lparr>discord_id = 7, points = 0, name = ''Ann''\<rparr>)],
      [(KInt 7, [''PYL'' @ [CHR 0x0A]])],
      save_player_data
        (registry_globals
           [(''PYL'' @ [CHR 0x0A], \<lparr>discord_id = 7, points = 0, name = ''Ann''\<rparr>)]
           [(KInt 7, [''PYL'' @ [CHR 0x0A]])])
        empty_store)"
  by code_simp

section \<open>The index after a load\<close>

text \<open>
  C10. Take a registry state whose index is keyed by integer owner ids, save it and load it.
  The keys of the loaded index are the decimal strings of the owner ids; no integer is a key
  of it, so a lookup by an integer owner id finds nothing. The loaded records are the saved
  ones, and the index that \<^verbatim>\<open>update_user_accounts\<close> rebuilds from them has every owner id
  as an integer key again, listing each of the owner's tags.
\<close>

theorem loaded_index_keys_are_strings:
  "\<not> faulty s \<Longrightarrow> distinct (map fst pd) \<Longrightarrow> (\<forall>k \<in> fst ` set ua. \<exists>i. k = KInt i) \<Longrightarrow>
   (let g = load_player_data (save_player_data (registry_globals pd ua) s)
    in (\<exists>kvs. user_accounts g = PDict kvs \<and>
              fst ` set kvs = {KStr (py_str_int i) |i. KInt i \<in> fst ` set ua}) \<and>
       (\<forall>i. \<not> py_in (KInt i) (user_accounts g)) \<and>
       player_data g = registry_val pd \<and>
       (\<forall>tp \<in> set pd.
          py_in (KInt (discord_id (snd tp))) (accounts_val (update_user_accounts pd)) \<and>
          fst tp \<in> tagset (update_user_accounts pd) (KInt (discord_id (snd tp)))))"
proof -
  assume ok: "\<not> faulty s" and dist: "distinct (map fst pd)"
    and ints: "\<forall>k \<in> fst ` set ua. \<exists>i. k = KInt i"
  define kvs where
    "kvs = dict_of (map (map_prod (\<lambda>k. KStr (key_str k)) (\<lambda>tags. PList (map PStr tags))) ua)"
  define g where "g = load_player_data (save_player_data (registry_globals pd ua) s)"
  have ua: "user_accounts g = PDict kvs"
    using ok by (simp add: g_def kvs_def load_after_save registry_globals_def
        accounts_val_round_trip)
  have keys: "fst ` set kvs = (\<lambda>k. KStr (key_str k)) ` fst ` set ua"
    by (simp add: kvs_def keys_dict_of image_image)
  have "(\<lambda>k. KStr (key_str k)) ` fst ` set ua = {KStr (py_str_int i) |i. KInt i \<in> fst ` set ua}"
    using ints by (force simp: key_str_def image_iff)
  then have k1: "fst ` set kvs = {KStr (py_str_int i) |i. KInt i \<in> fst ` set ua}"
    using keys by simp
  have k2: "\<not> py_in (KInt i) (user_accounts g)" for i
  proof -
    have "KInt i \<notin> fst ` set kvs"
      using keys by auto
    then show ?thesis
      by (simp add: ua py_in_def map_of_eq_None_iff)
  qed
  have k3: "player_data g = registry_val pd"
    using ok dist by (simp add: g_def load_after_save registry_globals_def
        registry_val_round_trip)
  have k4: "py_in (KInt (discord_id (snd tp))) (accounts_val (update_user_accounts pd)) \<and>
            fst tp \<in> tagset (update_user_accounts pd) (KInt (discord_id (snd tp)))"
    if "tp \<in> set pd" for tp
  proof -
    have "(fst tp, snd tp) \<in> set pd"
      using that by simp
    then have mem: "fst tp \<in> tagset (update_user_accounts pd) (KInt (discord_id (snd tp)))"
      unfolding tagset_update_user_accounts by blast
    then have "map_of (update_user_accounts pd) (KInt (discord_id (snd tp))) \<noteq> None"
      by (auto simp: tagset_def split: option.splits)
    then have "KInt (discord_id (snd tp)) \<in> fst ` set (update_user_accounts pd)"
      by (simp add: map_of_eq_None_iff)
    then have "py_in (KInt (discord_id (snd tp))) (accounts_val (update_user_accounts pd))"
      by (simp add: py_in_def accounts_val_def map_of_eq_None_iff image_image)
    then show ?thesis
      using mem by simp
  qed
  show ?thesis
    unfolding g_def [symmetric] Let_def using ua k1 k2 k3 k4 by blast
qed

theorem loaded_index_keys_are_strings_witness:
  "user_accounts (load_player_data
      (save_player_data (registry_globals example_registry example_accounts) empty_store)) =
     PDict [(KStr ''7'', PList [PStr ''PYL'', PStr ''QQQ'']),
            (KStr ''12'', PList [PStr ''0289''])] \<and>
   \<not> py_in (KInt 7) (user_accounts (load_player_data
      (save_player_data (registry_globals example_registry example_accounts) empty_store))) \<and>
   \<not> py_in (KInt 12) (user_accounts (load_player_data
      (save_player_data (registry_globals example_registry example_accounts) empty_store))) \<and>
   player_data (load_player_data
      (save_player_data (registry_globals example_registry example_accounts) empty_store)) =
     registry_val example_registry \<and>
   py_in (KInt 7) (accounts_val (update_user_accounts example_registry)) \<and>
   ''QQQ'' \<in> tagset (update_user_accounts example_registry) (KInt 7)"
proof -
  have hyps: "\<not> faulty empty_store" "distinct (map fst example_registry)"
    "\<forall>k \<in> fst ` set example_accounts. \<exists>i. k = KInt i"
    by (simp_all add: empty_store_def example_registry_def example_accounts_def)
  note th = loaded_index_keys_are_strings [OF hyps, unfolded Let_def]
  note no_int = th [THEN conjunct2, THEN conjunct1]
  note records = th [THEN conjunct2, THEN conjunct2, THEN conjunct1]
  note rebuilt = th [THEN conjunct2, THEN conjunct2, THEN conjunct2]
  have loaded: "user_accounts (load_player_data
      (save_player_data (registry_globals example_registry example_accounts) empty_store)) =
     PDict [(KStr ''7'', PList [PStr ''PYL'', PStr ''QQQ'']),
            (KStr ''12'', PList [PStr ''0289''])]"
    by code_simp
  have "(''QQQ'', \<lparr>discord_id = 7, points = 0, name = ''Ann''\<rparr>) \<in> set example_registry"
    by (simp add: example_registry_def)
  then have owner: "py_in (KInt 7) (accounts_val (update_user_accounts example_registry)) \<and>
      ''QQQ'' \<in> tagset (update_user_accounts example_registry) (KInt 7)"
    using rebuilt [rule_format, of "(''QQQ'', \<lparr>discord_id = 7, points = 0, name = ''Ann''\<rparr>)"]
    by simp
  show ?thesis
    using loaded no_int [rule_format, of 7] no_int [rule_format, of 12] records owner
    by blast
qed

end
